theory Spec2Isabelle
  imports Complex_Main
begin

section \<open>JavaScript strings: trim and split\<close>

text \<open>
  Strings are character lists.  \<open>String.prototype.trim\<close> removes leading and trailing
  white space and line terminators; within the 8-bit characters these are TAB, LF, VT,
  FF, CR, SPACE and NBSP.
\<close>

definition is_ws :: "char \<Rightarrow> bool" where
  "is_ws c = (c = CHR 0x09 \<or> c = CHR 0x0A \<or> c = CHR 0x0B \<or> c = CHR 0x0C
              \<or> c = CHR 0x0D \<or> c = CHR 0x20 \<or> c = CHR 0xA0)"

definition trim :: "string \<Rightarrow> string" where
  "trim s = rev (dropWhile is_ws (rev (dropWhile is_ws s)))"

text \<open>
  \<open>s.split(sep)\<close> for a string separator: scan left to right, cut at every occurrence
  of \<open>sep\<close> and resume after it.  \<open>cur\<close> holds the characters of the part being read.
  With an empty separator JavaScript splits into single characters.
\<close>

fun split_from :: "string \<Rightarrow> string \<Rightarrow> string \<Rightarrow> string list" where
  "split_from sep cur [] = [cur]"
| "split_from sep cur (c # cs) =
     (if sep \<noteq> [] \<and> take (length sep) (c # cs) = sep
      then cur # split_from sep [] (drop (length sep) (c # cs))
      else split_from sep (cur @ [c]) cs)"

definition js_split :: "string \<Rightarrow> string \<Rightarrow> string list" where
  "js_split sep s = (if sep = [] then map (\<lambda>c. [c]) s else split_from sep [] s)"

section \<open>IdeaForm: parsing the submitted text\<close>

text \<open>
  \<^verbatim>\<open>const parts = input.split(' in ')
  const idea = parts[0].trim()
  const industry = parts.length > 1 ? parts[1].trim() : 'Technology'\<close>
\<close>

definition parse_input :: "string \<Rightarrow> string \<times> string" where
  "parse_input inp =
     (let parts = js_split '' in '' inp;
          idea = trim (parts ! 0);
          industry = (if length parts > 1 then trim (parts ! 1) else ''Technology'')
      in (idea, industry))"

text \<open>
  The words of the specification, for comparison: the position of the first delimiter
  is the least index at which \<open>'' in ''\<close> occurs.
\<close>

definition delim_at :: "string \<Rightarrow> nat \<Rightarrow> bool" where
  "delim_at s i = (take 4 (drop i s) = '' in '')"

definition first_delim :: "string \<Rightarrow> nat \<Rightarrow> bool" where
  "first_delim s i = (delim_at s i \<and> (\<forall>j\<in>set [0..<i]. \<not> delim_at s j))"

definition no_delim :: "string \<Rightarrow> bool" where
  "no_delim s = (\<forall>j\<in>set [0..<length s]. \<not> delim_at s j)"

section \<open>ProgressView: stage labels\<close>

text \<open>
  \<open>STAGE_LABELS\<close> is an object literal.  A property read \<open>STAGE_LABELS[key]\<close> finds the
  literal's own properties first and then the members every object inherits from
  \<open>Object.prototype\<close>; it yields \<open>undefined\<close> for any other key.  The result is therefore
  a JavaScript value, not always a string.
\<close>

datatype jsval = Undefined | Str string | Inherited string

definition STAGE_LABELS :: "(string \<times> string) list" where
  "STAGE_LABELS =
     [(''initialization'', ''Initializing''),
      (''ideation'', ''Ideation''),
      (''comparative_insight'', ''Comparative Insight''),
      (''pitch_writing'', ''Pitch Writing''),
      (''prompt_forge'', ''Prompt Forge''),
      (''media_generation'', ''Media Generation''),
      (''qa_validation'', ''QA Validation''),
      (''publishing'', ''Publishing''),
      (''completed'', ''Completed!'')]"

definition Object_prototype :: "string list" where
  "Object_prototype =
     [''constructor'', ''toString'', ''toLocaleString'', ''valueOf'', ''hasOwnProperty'',
      ''isPrototypeOf'', ''propertyIsEnumerable'', ''__proto__'', ''__defineGetter__'',
      ''__defineSetter__'', ''__lookupGetter__'', ''__lookupSetter__'']"

text \<open>A property key is a string; \<open>undefined\<close> used as a key reads \<open>"undefined"\<close>.\<close>

definition property_key :: "string option \<Rightarrow> string" where
  "property_key k = (case k of None \<Rightarrow> ''undefined'' | Some s \<Rightarrow> s)"

definition get_STAGE_LABELS :: "string option \<Rightarrow> jsval" where
  "get_STAGE_LABELS k =
     (case map_of STAGE_LABELS (property_key k) of
        Some l \<Rightarrow> Str l
      | None \<Rightarrow> if property_key k \<in> set Object_prototype
                then Inherited (property_key k) else Undefined)"

fun truthy :: "jsval \<Rightarrow> bool" where
  "truthy Undefined = False"
| "truthy (Str s) = (s \<noteq> [])"
| "truthy (Inherited k) = True"

definition js_string :: "string option \<Rightarrow> jsval" where
  "js_string k = (case k of None \<Rightarrow> Undefined | Some s \<Rightarrow> Str s)"

text \<open>\<^verbatim>\<open>STAGE_LABELS[stage] || stage\<close>, the value shown as the current stage.\<close>

definition stage_label :: "string option \<Rightarrow> jsval" where
  "stage_label k = (if truthy (get_STAGE_LABELS k) then get_STAGE_LABELS k else js_string k)"

text \<open>
  String conversion in a template literal.  An inherited member is a native function,
  printed as browsers print one, except \<open>__proto__\<close>, which reads the prototype object.
\<close>

definition native_name :: "string \<Rightarrow> string" where
  "native_name k = (if k = ''constructor'' then ''Object'' else k)"

fun to_string :: "jsval \<Rightarrow> string" where
  "to_string Undefined = ''undefined''"
| "to_string (Str s) = s"
| "to_string (Inherited k) =
     (if k = ''__proto__'' then ''[object Object]''
      else ''function '' @ native_name k @ ''() { [native code] }'')"

section \<open>The runtime\<close>

text \<open>
  What the browser supplies: \<open>JSON.parse\<close> applied to a frame's payload, the conversion
  of an integral number to text, and whether the page was loaded over https.
  \<open>JSON_parse\<close> returns \<open>None\<close> where the \<^verbatim>\<open>try\<close> block throws: on a syntax error, and
  on the payload \<open>null\<close>, whose first property read throws.  Otherwise it returns the
  fields of the parsed value, a field being \<open>None\<close> where the value has no such property.
  Numbers are real numbers.
\<close>

record ProgressUpdate =
  data_type :: "string option"
  data_stage :: "string option"
  data_progress :: "real option"
  data_message :: "string option"

record runtime =
  JSON_parse :: "string \<Rightarrow> ProgressUpdate option"
  Number_toString :: "int \<Rightarrow> string"
  location_https :: bool

definition Math_round :: "real \<Rightarrow> int" where
  "Math_round x = \<lfloor>x + 1 / 2\<rfloor>"

text \<open>\<^verbatim>\<open>x || d\<close> for a string and for a number: the default replaces a missing or falsy value.\<close>

definition or_str :: "string option \<Rightarrow> string \<Rightarrow> string" where
  "or_str x d = (case x of None \<Rightarrow> d | Some s \<Rightarrow> if s = [] then d else s)"

definition or_num :: "real option \<Rightarrow> real \<Rightarrow> real" where
  "or_num x d = (case x of None \<Rightarrow> d | Some n \<Rightarrow> if n = 0 then d else n)"

section \<open>The session state\<close>

datatype ViewType = VInput | VProgress | VResults | VError

text \<open>The state of a mounted ProgressView: its four \<open>useState\<close> cells.\<close>

record ProgressView =
  progress :: real
  stage :: string
  message :: string
  logs :: "string list"

record websocket =
  url :: string
  ws_closed :: bool

datatype request =
    POST_generate_idea string string
  | GET_status string
  | GET_results string

text \<open>
  The state of Home (\<open>currentView\<close>, \<open>taskId\<close>, \<open>error\<close>) together with what hangs off it.
  A handler only records the new state; React renders later.  \<open>rendered\<close> is Home's
  state as of the last render and \<open>crashed\<close> says that a render has thrown, after which
  React has unmounted the whole tree.  Then come the mounted ProgressView, if any; every
  WebSocket created so far, the last one being the socket of the current effect; the
  number of pending \<open>setTimeout(onComplete, 1500)\<close> callbacks; the console; the requests
  IdeaForm has issued.
\<close>

record session =
  currentView :: ViewType
  taskId :: "string option"
  error :: "string option"
  rendered :: "ViewType \<times> string option \<times> string option"
  crashed :: bool
  view :: "ProgressView option"
  sockets :: "websocket list"
  timers :: nat
  console :: "string list"
  requests :: "request list"

definition initial :: session where
  "initial = \<lparr> currentView = VInput, taskId = None, error = None,
               rendered = (VInput, None, None), crashed = False, view = None,
               sockets = [], timers = 0, console = [], requests = [] \<rparr>"

subsection \<open>Home's handlers\<close>

definition handleStartGeneration :: "string option \<Rightarrow> session \<Rightarrow> session" where
  "handleStartGeneration ident st = st\<lparr>taskId := ident, currentView := VProgress, error := None\<rparr>"

definition handleDirectComplete :: "string option \<Rightarrow> session \<Rightarrow> session" where
  "handleDirectComplete result_task_id st =
     (if truthy (js_string result_task_id) then st\<lparr>taskId := result_task_id\<rparr> else st)
       \<lparr>currentView := VResults, error := None\<rparr>"

definition handleError :: "string \<Rightarrow> session \<Rightarrow> session" where
  "handleError errorMsg st = st\<lparr>error := Some errorMsg, currentView := VError\<rparr>"

definition handleComplete :: "session \<Rightarrow> session" where
  "handleComplete st = st\<lparr>currentView := VResults\<rparr>"

definition handleReset :: "session \<Rightarrow> session" where
  "handleReset st = st\<lparr>currentView := VInput, taskId := None, error := None\<rparr>"

subsection \<open>Rendering\<close>

text \<open>
  Home renders ProgressView exactly when \<^verbatim>\<open>currentView === 'progress' && taskId\<close>.
  When React renders after handlers have run, a ProgressView that appears is mounted
  with its initial state and its effect opens a WebSocket; one that disappears runs the
  effect's cleanup, \<open>ws.close()\<close>, and loses its state; one that stays while Home's state
  has changed receives new \<open>onComplete\<close> and \<open>onError\<close> functions, so the effect is
  cleaned up and run again.  Until that render the old tree stands: the socket of a
  ProgressView stays open, and its handlers keep running, after a handler has asked for
  another view.

  A mounted ProgressView renders \<^verbatim>\<open>{STAGE_LABELS[stage] || stage}\<close> as a child.  React
  shows a string, ignores a function and throws on any other object; the one such value
  the lookup can yield is \<open>Object.prototype\<close>, at the key \<open>__proto__\<close>.  Nothing catches the
  error, so React unmounts the tree, which runs the cleanup.
\<close>

definition shows_progress :: "session \<Rightarrow> bool" where
  "shows_progress st = (currentView st = VProgress \<and> truthy (js_string (taskId st)))"

definition wsUrl :: "runtime \<Rightarrow> string option \<Rightarrow> string" where
  "wsUrl rt ident =
     (if location_https rt then ''wss:'' else ''ws:'')
       @ ''//localhost:8000/ws/progress/'' @ to_string (js_string ident)"

definition initial_view :: ProgressView where
  "initial_view = \<lparr> progress = 0, stage = ''initialization'',
                    message = ''Starting pipeline...'', logs = [''Pipeline started...''] \<rparr>"

definition ws_close :: "session \<Rightarrow> session" where
  "ws_close st =
     (if sockets st = [] then st
      else st\<lparr>sockets := butlast (sockets st) @ [(last (sockets st))\<lparr>ws_closed := True\<rparr>]\<rparr>)"

definition new_WebSocket :: "runtime \<Rightarrow> session \<Rightarrow> session" where
  "new_WebSocket rt st =
     st\<lparr>sockets := sockets st @ [\<lparr> url = wsUrl rt (taskId st), ws_closed = False \<rparr>]\<rparr>"

definition home_state :: "session \<Rightarrow> ViewType \<times> string option \<times> string option" where
  "home_state st = (currentView st, taskId st, error st)"

definition is_object :: "jsval \<Rightarrow> bool" where
  "is_object x = (x = Inherited ''__proto__'')"

definition render_throws :: "ProgressView \<Rightarrow> bool" where
  "render_throws v = is_object (stage_label (Some (stage v)))"

definition reconcile :: "runtime \<Rightarrow> session \<Rightarrow> session" where
  "reconcile rt st =
     (if shows_progress st then
        (case view st of
           None \<Rightarrow> new_WebSocket rt (st\<lparr>view := Some initial_view\<rparr>)
         | Some v \<Rightarrow> if home_state st = rendered st then st else new_WebSocket rt (ws_close st))
      else
        (case view st of
           None \<Rightarrow> st
         | Some v \<Rightarrow> (ws_close st)\<lparr>view := None\<rparr>))"

definition unmount_tree :: "session \<Rightarrow> session" where
  "unmount_tree st = (ws_close st)\<lparr>view := None, crashed := True\<rparr>"

definition render :: "runtime \<Rightarrow> session \<Rightarrow> session" where
  "render rt st =
     (let st1 = (reconcile rt st)\<lparr>rendered := home_state st\<rparr>
      in case view st1 of
           None \<Rightarrow> st1
         | Some v \<Rightarrow> if render_throws v then unmount_tree st1 else st1)"

subsection \<open>ProgressView's handlers\<close>

text \<open>
  \<open>time\<close> is the reading of \<open>new Date().toLocaleTimeString()\<close> when the handler runs.
\<close>

definition log_line :: "string \<Rightarrow> string \<Rightarrow> string" where
  "log_line time msg = ''['' @ time @ ''] '' @ msg"

definition addLog :: "string \<Rightarrow> string \<Rightarrow> ProgressView \<Rightarrow> ProgressView" where
  "addLog time msg v = v\<lparr>logs := logs v @ [log_line time msg]\<rparr>"

definition progress_line :: "runtime \<Rightarrow> ProgressUpdate \<Rightarrow> string" where
  "progress_line rt d =
     to_string (stage_label (data_stage d)) @ '': ''
       @ Number_toString rt (Math_round (or_num (data_progress d) 0)) @ ''%''"

definition onopen :: "string \<Rightarrow> session \<Rightarrow> session" where
  "onopen time st =
     st\<lparr>console := console st @ [''WebSocket connected''],
        view := map_option (addLog time ''Connected to stream'') (view st)\<rparr>"

definition onmessage :: "runtime \<Rightarrow> string \<Rightarrow> string \<Rightarrow> session \<Rightarrow> session" where
  "onmessage rt time payload st =
     (case JSON_parse rt payload of
        None \<Rightarrow> st\<lparr>console := console st @ [''Failed to parse WebSocket message:'']\<rparr>
      | Some d \<Rightarrow>
          if data_type d = Some ''progress'' \<or> data_type d = Some ''status'' then
            st\<lparr>view := map_option
                 (\<lambda>v. addLog time (progress_line rt d)
                        (v\<lparr>progress := or_num (data_progress d) 0,
                           stage := or_str (data_stage d) ''unknown'',
                           message := or_str (data_message d) ''Processing...''\<rparr>))
                 (view st)\<rparr>
          else if data_type d = Some ''final'' then
            st\<lparr>view := map_option
                 (\<lambda>v. addLog time ''Pipeline complete!''
                        (v\<lparr>progress := 100,
                           stage := ''completed'',
                           message := ''Your pitch deck has been successfully generated!''\<rparr>))
                 (view st),
               timers := Suc (timers st)\<rparr>
          else if data_type d = Some ''error'' then
            handleError (or_str (data_message d) ''An error occurred'') st
          else st)"

definition onerror :: "session \<Rightarrow> session" where
  "onerror st =
     handleError ''Connection error. Please refresh and try again.''
       (st\<lparr>console := console st @ [''WebSocket error:'']\<rparr>)"

subsection \<open>IdeaForm's handler\<close>

text \<open>
  The answers of the backend to the three requests of one submission.  \<open>Rejected\<close> is a
  promise that rejects (\<open>fetch\<close> itself, or \<open>response.json()\<close> of a successful response),
  with the message of the error when it is an \<open>Error\<close>; \<open>NotOk\<close> is a response whose \<open>ok\<close>
  is false; \<open>Ok\<close> is a successful response.  The field carried is the one the handler
  reads: \<open>detail\<close> of a failed submission, \<open>task_id\<close>, \<open>status\<close>, \<open>task_id\<close> of the results.
  The handler runs to its end in one step; the form's \<open>loading\<close> flag, raised while it
  runs and lowered when it ends, and its pause of 100 ms are left out.
\<close>

datatype response = Rejected "string option" | NotOk "string option" | Ok "string option"

record backend =
  generate_idea :: response
  status :: response
  results :: response

definition caught :: "string option \<Rightarrow> string" where
  "caught e = (case e of None \<Rightarrow> ''Failed to start pipeline'' | Some m \<Rightarrow> m)"

definition fetch :: "request \<Rightarrow> session \<Rightarrow> session" where
  "fetch r st = st\<lparr>requests := requests st @ [r]\<rparr>"

definition handleSubmit :: "string \<Rightarrow> backend \<Rightarrow> session \<Rightarrow> session" where
  "handleSubmit inp b st =
     (if trim inp = [] then handleError ''Please enter a startup idea'' st
      else
        let st1 = fetch (POST_generate_idea (fst (parse_input inp)) (snd (parse_input inp))) st
        in (case generate_idea b of
              Rejected e \<Rightarrow> handleError (caught e) st1
            | NotOk detail \<Rightarrow> handleError (or_str detail ''Failed to start pipeline'') st1
            | Ok task_id \<Rightarrow>
                (let st2 = fetch (GET_status (to_string (js_string task_id))) st1
                 in (case status b of
                       Rejected e \<Rightarrow> handleError (caught e) st2
                     | NotOk x \<Rightarrow> handleError ''Failed to check task status'' st2
                     | Ok stat \<Rightarrow>
                         (if stat = Some ''completed'' then
                            (let st3 = fetch (GET_results (to_string (js_string task_id))) st2
                             in (case results b of
                                   Rejected e \<Rightarrow> handleError (caught e) st3
                                 | NotOk x \<Rightarrow> handleError ''Failed to fetch results'' st3
                                 | Ok result_task_id \<Rightarrow>
                                     handleDirectComplete result_task_id st3))
                          else handleStartGeneration task_id st2)))))"

subsection \<open>Events\<close>

text \<open>
  An event is one handler run to its end, or one render by React (with the cleanups it
  brings).  The form exists only while the input view is rendered; the socket's handlers
  run as long as its ProgressView is mounted, since only the cleanup closes the socket; a
  timer fires only when one is pending, and nothing ever cancels one; after a crash no
  component is left to handle or render anything, and a timer that fires sets the state
  of a component that is gone.  \<open>submit\<close> and \<open>reset\<close> are the handler followed by the
  render.
\<close>

datatype event =
    Submit string backend
  | WsOpen string
  | WsMessage string string
  | WsError
  | Timer
  | Reset
  | Render

definition submit :: "runtime \<Rightarrow> string \<Rightarrow> backend \<Rightarrow> session \<Rightarrow> session" where
  "submit rt inp b st = render rt (handleSubmit inp b st)"

definition reset :: "runtime \<Rightarrow> session \<Rightarrow> session" where
  "reset rt st = render rt (handleReset st)"

definition completeNow :: "session \<Rightarrow> session" where
  "completeNow st =
     (if crashed st then st\<lparr>timers := timers st - 1\<rparr>
      else handleComplete (st\<lparr>timers := timers st - 1\<rparr>))"

fun step :: "runtime \<Rightarrow> event \<Rightarrow> session \<Rightarrow> session" where
  "step rt (Submit inp b) st =
     (if \<not> crashed st \<and> fst (rendered st) = VInput then handleSubmit inp b st else st)"
| "step rt (WsOpen time) st = (if view st = None then st else onopen time st)"
| "step rt (WsMessage time payload) st =
     (if view st = None then st else onmessage rt time payload st)"
| "step rt WsError st = (if view st = None then st else onerror st)"
| "step rt Timer st = (if timers st = 0 then st else completeNow st)"
| "step rt Reset st = (if crashed st then st else handleReset st)"
| "step rt Render st = (if crashed st then st else render rt st)"

fun run :: "runtime \<Rightarrow> event list \<Rightarrow> session \<Rightarrow> session" where
  "run rt [] st = st"
| "run rt (e # es) st = run rt es (step rt e st)"


subsection \<open>What the views show\<close>

text \<open>
  The progress text is \<^verbatim>\<open>{Math.round(progress)}%\<close>, the bar's width is \<^verbatim>\<open>${progress}%\<close>,
  and the log shown is that of the mounted ProgressView; there is none otherwise.
\<close>

definition percent_text :: "runtime \<Rightarrow> ProgressView \<Rightarrow> string" where
  "percent_text rt v = Number_toString rt (Math_round (progress v)) @ ''%''"

definition shown_log :: "session \<Rightarrow> string list" where
  "shown_log st = (case view st of None \<Rightarrow> [] | Some v \<Rightarrow> logs v)"

definition in_progress :: "session \<Rightarrow> bool" where
  "in_progress st = (\<not> crashed st \<and> currentView st = VProgress \<and> view st \<noteq> None)"

text \<open>The progress view is on the screen: Home shows it and its own render succeeds.\<close>

definition on_screen :: "session \<Rightarrow> bool" where
  "on_screen st =
     (in_progress st \<and> shows_progress st
      \<and> (case view st of None \<Rightarrow> False | Some v \<Rightarrow> \<not> render_throws v))"


fun benign :: "runtime \<Rightarrow> event \<Rightarrow> bool" where
  "benign rt (WsOpen time) = True"
| "benign rt (WsMessage time payload) =
     (case JSON_parse rt payload of
        None \<Rightarrow> True
      | Some d \<Rightarrow>
          data_type d \<noteq> Some ''error''
          \<and> \<not> ((data_type d = Some ''progress'' \<or> data_type d = Some ''status'')
                 \<and> data_stage d = Some ''__proto__''))"
| "benign rt Render = True"
| "benign rt e = False"



text \<open>
  A received frame is written as its time of arrival, its payload and the update the
  payload parses to.  \<open>progress_frame\<close> says that the triple is consistent and that the
  update is of kind \<open>progress\<close> or \<open>status\<close>, which the handler treats alike.
  \<open>frame_events\<close> are the handlers alone, \<open>rendered_frame_events\<close> the handlers each
  followed by a render.
\<close>

definition progress_frame :: "runtime \<Rightarrow> string \<times> string \<times> ProgressUpdate \<Rightarrow> bool" where
  "progress_frame rt f =
     (case f of (time, payload, d) \<Rightarrow>
        JSON_parse rt payload = Some d
        \<and> (data_type d = Some ''progress'' \<or> data_type d = Some ''status''))"

definition frame_events :: "(string \<times> string \<times> ProgressUpdate) list \<Rightarrow> event list" where
  "frame_events fs = map (\<lambda>(time, payload, d). WsMessage time payload) fs"

definition rendered_frame_events ::
  "(string \<times> string \<times> ProgressUpdate) list \<Rightarrow> event list" where
  "rendered_frame_events fs = concat (map (\<lambda>(time, payload, d). [WsMessage time payload, Render]) fs)"

definition frame_lines :: "runtime \<Rightarrow> (string \<times> string \<times> ProgressUpdate) list \<Rightarrow> string list" where
  "frame_lines rt fs = map (\<lambda>(time, payload, d). log_line time (progress_line rt d)) fs"

text \<open>
  What the backend reports for a submission: the job was accepted and its status is not
  \<open>completed\<close>; the job was accepted and its status is \<open>completed\<close>; the results could
  be fetched; the task identifier it returned.
\<close>

definition reports_pending :: "backend \<Rightarrow> bool" where
  "reports_pending b =
     (case generate_idea b of
        Ok task_id \<Rightarrow> (case status b of Ok stat \<Rightarrow> stat \<noteq> Some ''completed'' | _ \<Rightarrow> False)
      | _ \<Rightarrow> False)"

definition reports_completed :: "backend \<Rightarrow> bool" where
  "reports_completed b =
     (case generate_idea b of
        Ok task_id \<Rightarrow> (case status b of Ok stat \<Rightarrow> stat = Some ''completed'' | _ \<Rightarrow> False)
      | _ \<Rightarrow> False)"

definition results_fetched :: "backend \<Rightarrow> bool" where
  "results_fetched b = (case results b of Ok result_task_id \<Rightarrow> True | _ \<Rightarrow> False)"

definition returned_task_id :: "backend \<Rightarrow> string option" where
  "returned_task_id b = (case generate_idea b of Ok task_id \<Rightarrow> task_id | _ \<Rightarrow> None)"

text \<open>
  What holds of every state the session can reach: only the socket of a mounted
  ProgressView can be open; unless the tree has crashed, a ProgressView is mounted
  exactly when the last render showed it; after a crash none is mounted.
\<close>

definition shown_progress :: "session \<Rightarrow> bool" where
  "shown_progress st =
     (case rendered st of (v, ident, msg) \<Rightarrow> v = VProgress \<and> truthy (js_string ident))"

definition well_formed :: "session \<Rightarrow> bool" where
  "well_formed st = ((\<forall>w\<in>set (butlast (sockets st)). ws_closed w)
          \<and> (view st = None \<longrightarrow> (\<forall>w\<in>set (sockets st). ws_closed w))
          \<and> (if crashed st then view st = None else (view st \<noteq> None) = shown_progress st))"

section \<open>A runtime for evaluation\<close>

text \<open>
  Decimal digits, as \<open>Number.prototype.toString\<close> prints an integer below \<open>10^21\<close>, and a
  table that agrees with \<open>JSON.parse\<close> on the frames named here; every other payload
  used below is not JSON.
\<close>

fun digits :: "nat \<Rightarrow> string" where
  "digits n = (if n < 10 then [''0123456789'' ! n]
               else digits (n div 10) @ [''0123456789'' ! (n mod 10)])"

definition decimal :: "int \<Rightarrow> string" where
  "decimal i = (if i < 0 then CHR ''-'' # digits (nat (- i)) else digits (nat i))"

definition frame_status :: string where
  \<open>frame_status =
     ''{"type":"status","stage":"ideation","progress":10,"message":"Expanding idea..."}''\<close>

definition frame_progress :: string where
  \<open>frame_progress =
     ''{"type":"progress","stage":"pitch_writing","progress":45,"message":"Writing"}''\<close>

definition frame_final :: string where
  \<open>frame_final = ''{"type":"final","progress":100,"message":"Done"}''\<close>

definition frame_error :: string where
  \<open>frame_error = ''{"type":"error","message":"boom"}''\<close>

definition frame_error_blank :: string where
  \<open>frame_error_blank = ''{"type":"error","message":""}''\<close>

definition frame_proto :: string where
  \<open>frame_proto = ''{"type":"progress","stage":"__proto__","progress":45,"message":"x"}''\<close>

definition frame_half :: string where
  \<open>frame_half = ''{"type":"progress","stage":"ideation","progress":45.5,"message":"Half"}''\<close>

definition update_status :: ProgressUpdate where
  "update_status = \<lparr> data_type = Some ''status'', data_stage = Some ''ideation'',
                      data_progress = Some 10, data_message = Some ''Expanding idea...'' \<rparr>"

definition update_progress :: ProgressUpdate where
  "update_progress = \<lparr> data_type = Some ''progress'', data_stage = Some ''pitch_writing'',
                        data_progress = Some 45, data_message = Some ''Writing'' \<rparr>"

definition update_final :: ProgressUpdate where
  "update_final = \<lparr> data_type = Some ''final'', data_stage = None,
                     data_progress = Some 100, data_message = Some ''Done'' \<rparr>"

definition update_error :: ProgressUpdate where
  "update_error = \<lparr> data_type = Some ''error'', data_stage = None,
                     data_progress = None, data_message = Some ''boom'' \<rparr>"

definition update_error_blank :: ProgressUpdate where
  "update_error_blank = \<lparr> data_type = Some ''error'', data_stage = None,
                           data_progress = None, data_message = Some [] \<rparr>"

definition update_proto :: ProgressUpdate where
  "update_proto = \<lparr> data_type = Some ''progress'', data_stage = Some ''__proto__'',
                     data_progress = Some 45, data_message = Some ''x'' \<rparr>"

definition update_half :: ProgressUpdate where
  "update_half = \<lparr> data_type = Some ''progress'', data_stage = Some ''ideation'',
                    data_progress = Some (91 / 2), data_message = Some ''Half'' \<rparr>"

definition sample_frames :: "(string \<times> ProgressUpdate) list" where
  "sample_frames =
     [(frame_status, update_status), (frame_progress, update_progress),
      (frame_final, update_final), (frame_error, update_error),
      (frame_error_blank, update_error_blank), (frame_proto, update_proto),
      (frame_half, update_half)]"

definition sample_runtime :: runtime where
  "sample_runtime = \<lparr> JSON_parse = map_of sample_frames, Number_toString = decimal,
                       location_https = False \<rparr>"

definition accepted :: backend where
  "accepted = \<lparr> generate_idea = Ok (Some ''t1''), status = Ok (Some ''running''),
                 results = NotOk None \<rparr>"

definition finished :: backend where
  "finished = \<lparr> generate_idea = Ok (Some ''t1''), status = Ok (Some ''completed''),
                 results = Ok (Some ''t1'') \<rparr>"

definition finished_unfetched :: backend where
  "finished_unfetched = \<lparr> generate_idea = Ok (Some ''t1''), status = Ok (Some ''completed''),
                           results = NotOk None \<rparr>"

definition accepted_unnamed :: backend where
  "accepted_unnamed = \<lparr> generate_idea = Ok (Some []), status = Ok (Some ''running''),
                         results = NotOk None \<rparr>"

text \<open>
  The session after \<open>"AI scheduling tool in healthcare"\<close> was accepted as task \<open>t1\<close> and
  the progress view rendered.
\<close>

definition started :: session where
  "started = submit sample_runtime ''AI scheduling tool in healthcare'' accepted initial"

section \<open>Splitting and trimming\<close>

lemma split_from_none_gen:
  "sep \<noteq> [] \<Longrightarrow> length sep = n \<Longrightarrow> \<forall>j. take n (drop j s) \<noteq> sep \<Longrightarrow>
   split_from sep cur s = [cur @ s]"
proof (induction s arbitrary: cur)
  case Nil
  then show ?case by simp
next
  case (Cons c cs)
  from Cons.prems(3) have here: "take n (c # cs) \<noteq> sep"
    by (metis drop0)
  have later: "\<forall>j. take n (drop j cs) \<noteq> sep"
  proof
    fix j
    from Cons.prems(3) have "take n (drop (Suc j) (c # cs)) \<noteq> sep" by blast
    then show "take n (drop j cs) \<noteq> sep" by simp
  qed
  from Cons.IH [OF Cons.prems(1,2) later] here Cons.prems(2) show ?case by simp
qed

lemma split_from_first_gen:
  "sep \<noteq> [] \<Longrightarrow> length sep = n \<Longrightarrow> take n (drop i s) = sep \<Longrightarrow>
   \<forall>j<i. take n (drop j s) \<noteq> sep \<Longrightarrow>
   split_from sep cur s = (cur @ take i s) # split_from sep [] (drop (i + n) s)"
proof (induction s arbitrary: cur i)
  case Nil
  then show ?case by simp
next
  case (Cons c cs)
  show ?case
  proof (cases i)
    case 0
    with Cons.prems show ?thesis by simp
  next
    case (Suc k)
    from Cons.prems(4) Suc have here: "take n (c # cs) \<noteq> sep"
      by (metis drop0 zero_less_Suc)
    from Cons.prems(3) Suc have at: "take n (drop k cs) = sep" by simp
    have before: "\<forall>j<k. take n (drop j cs) \<noteq> sep"
    proof (intro allI impI)
      fix j assume "j < k"
      then have "Suc j < i" using Suc by simp
      with Cons.prems(4) have "take n (drop (Suc j) (c # cs)) \<noteq> sep" by blast
      then show "take n (drop j cs) \<noteq> sep" by simp
    qed
    from Cons.IH [OF Cons.prems(1,2) at before, of "cur @ [c]"] here Suc Cons.prems(2)
    show ?thesis by simp
  qed
qed

lemma split_from_none:
  "\<forall>j. take 4 (drop j s) \<noteq> '' in '' \<Longrightarrow> split_from '' in '' cur s = [cur @ s]"
  by (rule split_from_none_gen) simp_all

lemma split_from_first:
  "take 4 (drop i s) = '' in '' \<Longrightarrow> \<forall>j<i. take 4 (drop j s) \<noteq> '' in '' \<Longrightarrow>
   split_from '' in '' cur s = (cur @ take i s) # split_from '' in '' [] (drop (i + 4) s)"
  by (rule split_from_first_gen) simp_all

lemma split_from_nonempty: "split_from sep cur s \<noteq> []"
  by (induction sep cur s rule: split_from.induct) auto

lemma no_delim_all: "no_delim s \<Longrightarrow> \<forall>j. take 4 (drop j s) \<noteq> '' in ''"
proof
  fix j
  assume n: "no_delim s"
  show "take 4 (drop j s) \<noteq> '' in ''"
  proof (cases "j < length s")
    case True
    with n show ?thesis by (simp add: no_delim_def delim_at_def)
  next
    case False
    then show ?thesis by simp
  qed
qed

lemma js_split_first:
  "first_delim inp i \<Longrightarrow>
   js_split '' in '' inp = take i inp # js_split '' in '' (drop (i + 4) inp)"
  using split_from_first [of i inp "[]"]
  by (simp add: js_split_def first_delim_def delim_at_def)

lemma js_split_no_delim: "no_delim s \<Longrightarrow> js_split '' in '' s = [s]"
  using split_from_none [OF no_delim_all, of s "[]"]
  by (simp add: js_split_def)

lemma dropWhile_all: "(\<forall>x\<in>set (dropWhile P xs). P x) = (\<forall>x\<in>set xs. P x)"
proof
  assume a: "\<forall>x\<in>set (dropWhile P xs). P x"
  have "dropWhile P xs = []"
  proof (rule ccontr)
    assume n: "dropWhile P xs \<noteq> []"
    then have "\<not> P (hd (dropWhile P xs))" by (rule hd_dropWhile)
    moreover from n have "hd (dropWhile P xs) \<in> set (dropWhile P xs)" by simp
    ultimately show False using a by blast
  qed
  then show "\<forall>x\<in>set xs. P x" by (simp add: dropWhile_eq_Nil_conv)
next
  assume "\<forall>x\<in>set xs. P x"
  then show "\<forall>x\<in>set (dropWhile P xs). P x" by (meson set_dropWhileD)
qed

lemma trim_blank: "(trim s = []) = (\<forall>c\<in>set s. is_ws c)"
  by (simp add: trim_def dropWhile_eq_Nil_conv dropWhile_all)

lemma trim_spec:
  "\<exists>a b. s = a @ trim s @ b \<and> (\<forall>c\<in>set a. is_ws c) \<and> (\<forall>c\<in>set b. is_ws c)
         \<and> (trim s \<noteq> [] \<longrightarrow> \<not> is_ws (hd (trim s)) \<and> \<not> is_ws (last (trim s)))"
proof -
  define r where "r = dropWhile is_ws s"
  define q where "q = dropWhile is_ws (rev r)"
  have t: "trim s = rev q" by (simp add: trim_def r_def q_def)
  have s: "s = takeWhile is_ws s @ r" by (simp add: r_def)
  have "rev r = takeWhile is_ws (rev r) @ q" by (simp add: q_def)
  then have "rev (rev r) = rev (takeWhile is_ws (rev r) @ q)" by simp
  then have r: "r = rev q @ rev (takeWhile is_ws (rev r))" by simp
  have a: "\<forall>c\<in>set (takeWhile is_ws s). is_ws c" by (auto dest: set_takeWhileD)
  have b: "\<forall>c\<in>set (rev (takeWhile is_ws (rev r))). is_ws c" by (auto dest: set_takeWhileD)
  have e: "\<not> is_ws (hd (rev q)) \<and> \<not> is_ws (last (rev q))" if n: "rev q \<noteq> []"
  proof
    from n have "q \<noteq> []" by simp
    then have "\<not> is_ws (hd q)" unfolding q_def by (rule hd_dropWhile)
    with \<open>q \<noteq> []\<close> show "\<not> is_ws (last (rev q))" by (simp add: last_rev)
    have "hd r = hd (rev q @ rev (takeWhile is_ws (rev r)))" by (rule arg_cong [OF r])
    with n have h: "hd r = hd (rev q)" by (simp add: hd_append)
    have "r \<noteq> []"
    proof
      assume "r = []"
      with r have "rev q @ rev (takeWhile is_ws (rev r)) = []" by simp
      with n show False by simp
    qed
    then have "\<not> is_ws (hd r)" unfolding r_def by (rule hd_dropWhile)
    with h show "\<not> is_ws (hd (rev q))" by simp
  qed
  from s r have "s = takeWhile is_ws s @ trim s @ rev (takeWhile is_ws (rev r))"
    by (simp add: t)
  with a b e show ?thesis unfolding t by blast
qed

lemma trim_example:
  "trim [CHR 0x09, CHR '' '', CHR ''a'', CHR '' '', CHR ''b'', CHR '' '', CHR 0x0A] = ''a b''"
  by (simp add: trim_def is_ws_def)

section \<open>Rendering\<close>

lemma reconcile_fields [simp]:
  "currentView (reconcile rt st) = currentView st"
  "taskId (reconcile rt st) = taskId st"
  "error (reconcile rt st) = error st"
  "timers (reconcile rt st) = timers st"
  "console (reconcile rt st) = console st"
  "requests (reconcile rt st) = requests st"
  "crashed (reconcile rt st) = crashed st"
  by (simp_all add: reconcile_def ws_close_def new_WebSocket_def split: option.splits)

lemma render_fields [simp]:
  "currentView (render rt st) = currentView st"
  "taskId (render rt st) = taskId st"
  "error (render rt st) = error st"
  "timers (render rt st) = timers st"
  "console (render rt st) = console st"
  "requests (render rt st) = requests st"
  "rendered (render rt st) = home_state st"
  by (simp_all add: render_def unmount_tree_def ws_close_def Let_def split: option.splits)

lemma reconcile_view:
  "view (reconcile rt st) =
     (if shows_progress st then (case view st of None \<Rightarrow> Some initial_view | Some v \<Rightarrow> Some v)
      else None)"
  by (simp add: reconcile_def ws_close_def new_WebSocket_def split: option.splits)

lemma render_mounts:
  "view st = None \<Longrightarrow> view (render rt st) = Some v' \<Longrightarrow> v' = initial_view"
  by (auto simp: render_def reconcile_view unmount_tree_def ws_close_def Let_def
      split: option.splits if_splits)

lemma render_keeps:
  "view st = Some v \<Longrightarrow> view (render rt st) = Some v' \<Longrightarrow> v' = v"
  by (auto simp: render_def reconcile_view unmount_tree_def ws_close_def Let_def
      split: option.splits if_splits)

lemma throws_iff: "render_throws v = (stage v = ''__proto__'')"
proof
  assume "render_throws v"
  then show "stage v = ''__proto__''"
    by (auto simp: render_throws_def is_object_def stage_label_def get_STAGE_LABELS_def
        property_key_def js_string_def split: option.splits if_splits)
next
  assume "stage v = ''__proto__''"
  then show "render_throws v"
    by (simp add: render_throws_def is_object_def stage_label_def get_STAGE_LABELS_def
        property_key_def STAGE_LABELS_def Object_prototype_def)
qed

lemma initial_view_renders: "\<not> render_throws initial_view"
  by (simp add: throws_iff initial_view_def)

lemma render_hidden:
  "\<not> shows_progress st \<Longrightarrow>
   render rt st = (case view st of None \<Rightarrow> st\<lparr>rendered := home_state st\<rparr>
                   | Some v \<Rightarrow> (ws_close st)\<lparr>view := None, rendered := home_state st\<rparr>)"
  by (simp add: render_def reconcile_def ws_close_def Let_def split: option.splits)

lemma render_appears:
  "shows_progress st \<Longrightarrow> view st = None \<Longrightarrow>
   render rt st = (new_WebSocket rt (st\<lparr>view := Some initial_view\<rparr>))\<lparr>rendered := home_state st\<rparr>"
  by (simp add: render_def reconcile_def new_WebSocket_def Let_def initial_view_renders)

lemma render_stays:
  "shows_progress st \<Longrightarrow> view st = Some v \<Longrightarrow> \<not> render_throws v \<Longrightarrow>
   home_state st = rendered st \<Longrightarrow> render rt st = st"
  by (simp add: render_def reconcile_def Let_def)

lemma handleSubmit_view [simp]: "view (handleSubmit inp b st) = view st"
  by (simp add: handleSubmit_def handleError_def handleDirectComplete_def
      handleStartGeneration_def fetch_def Let_def split: response.splits)

lemma handleSubmit_sockets [simp]: "sockets (handleSubmit inp b st) = sockets st"
  by (simp add: handleSubmit_def handleError_def handleDirectComplete_def
      handleStartGeneration_def fetch_def Let_def split: response.splits)

lemma handleSubmit_tree [simp]:
  "crashed (handleSubmit inp b st) = crashed st"
  "rendered (handleSubmit inp b st) = rendered st"
  by (simp_all add: handleSubmit_def handleError_def handleDirectComplete_def
      handleStartGeneration_def fetch_def Let_def split: response.splits)

section \<open>The evaluation runtime on its frames\<close>

lemma parse_example:
  "parse_input ''AI scheduling tool in healthcare'' = (''AI scheduling tool'', ''healthcare'')"
  by (simp add: parse_input_def js_split_def trim_def is_ws_def Let_def)

lemma sample_nonblank: "trim ''AI scheduling tool in healthcare'' \<noteq> []"
  by (simp add: trim_def is_ws_def)

lemma started_eq:
  "started = \<lparr> currentView = VProgress, taskId = Some ''t1'', error = None,
       rendered = (VProgress, Some ''t1'', None), crashed = False,
       view = Some initial_view,
       sockets = [\<lparr> url = ''ws://localhost:8000/ws/progress/t1'', ws_closed = False \<rparr>],
       timers = 0, console = [],
       requests = [POST_generate_idea ''AI scheduling tool'' ''healthcare'', GET_status ''t1''] \<rparr>"
proof -
  have h: "handleSubmit ''AI scheduling tool in healthcare'' accepted initial =
      \<lparr> currentView = VProgress, taskId = Some ''t1'', error = None,
        rendered = (VInput, None, None), crashed = False, view = None, sockets = [],
        timers = 0, console = [],
        requests = [POST_generate_idea ''AI scheduling tool'' ''healthcare'', GET_status ''t1''] \<rparr>"
    by (simp add: handleSubmit_def sample_nonblank parse_example accepted_def fetch_def
        handleStartGeneration_def initial_def js_string_def Let_def)
  show ?thesis
    unfolding started_def submit_def h
    by (subst render_appears)
       (simp_all add: shows_progress_def js_string_def new_WebSocket_def wsUrl_def
         sample_runtime_def home_state_def)
qed

lemma started_run:
  "run sample_runtime [Submit ''AI scheduling tool in healthcare'' accepted, Render] initial
     = started"
  by (simp add: started_def submit_def initial_def handleSubmit_def sample_nonblank Let_def
      fetch_def accepted_def handleStartGeneration_def)

lemma sample_parse:
  "JSON_parse sample_runtime ''not json'' = None"
  "JSON_parse sample_runtime frame_status = Some update_status"
  "JSON_parse sample_runtime frame_progress = Some update_progress"
  "JSON_parse sample_runtime frame_final = Some update_final"
  "JSON_parse sample_runtime frame_error = Some update_error"
  "JSON_parse sample_runtime frame_error_blank = Some update_error_blank"
  "JSON_parse sample_runtime frame_proto = Some update_proto"
  "JSON_parse sample_runtime frame_half = Some update_half"
  by (simp_all add: sample_runtime_def sample_frames_def frame_status_def frame_progress_def
      frame_final_def frame_error_def frame_error_blank_def frame_proto_def frame_half_def)

section \<open>Malformed frames\<close>

text \<open>
  Claim C6.  A frame whose payload fails to parse changes nothing of the controller: the
  view, the task, the error message, the ProgressView with its progress, stage, message
  and log, the sockets and the timers stay as they were.  The handler only writes one
  line to the console (and a frame that arrives when no ProgressView is mounted is not
  handled at all).
\<close>

theorem malformed_frame_swallowed:
  assumes "JSON_parse rt payload = None"
  shows "step rt (WsMessage time payload) st =
           (if view st = None then st
            else st\<lparr>console := console st @ [''Failed to parse WebSocket message:'']\<rparr>)"
  using assms by (simp add: onmessage_def)

theorem malformed_frame_swallowed_witness:
  "JSON_parse sample_runtime ''not json'' = None
   \<and> view started = Some initial_view
   \<and> step sample_runtime (WsMessage ''10:00:03'' ''not json'') started =
       started\<lparr>console := [''Failed to parse WebSocket message:'']\<rparr>"
  using malformed_frame_swallowed [of sample_runtime "''not json''" "''10:00:03''" started]
  by (simp add: sample_parse started_eq)

section \<open>Blank submissions\<close>

text \<open>
  Claim C7.  A submission whose text is empty or consists of white space only issues no
  request, and the validation message reaches Home through \<open>onError\<close>: the view becomes
  the error view with the message \<open>Please enter a startup idea\<close>.
\<close>

theorem blank_submission_rejected:
  assumes "\<forall>c\<in>set inp. is_ws c"
  shows "requests (submit rt inp b st) = requests st
       \<and> error (submit rt inp b st) = Some ''Please enter a startup idea''
       \<and> currentView (submit rt inp b st) = VError"
  using assms by (simp add: submit_def handleSubmit_def handleError_def trim_blank)

theorem blank_submission_rejected_witness:
  "trim [CHR 0x20, CHR 0x09, CHR 0x20] = []
   \<and> requests (submit sample_runtime [CHR 0x20, CHR 0x09, CHR 0x20] accepted initial) = []
   \<and> error (submit sample_runtime [CHR 0x20, CHR 0x09, CHR 0x20] accepted initial)
       = Some ''Please enter a startup idea''
   \<and> currentView (submit sample_runtime [CHR 0x20, CHR 0x09, CHR 0x20] accepted initial) = VError"
  using blank_submission_rejected
    [of "[CHR 0x20, CHR 0x09, CHR 0x20]" sample_runtime accepted initial]
  by (simp add: is_ws_def trim_def initial_def)

section \<open>The log only grows\<close>

lemma onmessage_view:
  "view st = Some v \<Longrightarrow>
   view (onmessage rt time payload st) = Some v
   \<or> (\<exists>msg p s m. view (onmessage rt time payload st)
         = Some (addLog time msg (v\<lparr>progress := p, stage := s, message := m\<rparr>)))"
  apply (simp add: onmessage_def handleError_def split: option.splits)
  by blast

text \<open>
  Claim C10.  The log of a ProgressView starts as the single entry \<open>Pipeline started...\<close>
  when the view is mounted, before any event of the stream, and every event that leaves
  the view mounted leaves its log as it was or appends one time-stamped line at its
  end: no entry is ever removed or changed.
\<close>

theorem log_append_only:
  "(view st = None \<and> view (step rt e st) = Some v' \<longrightarrow> logs v' = [''Pipeline started...''])
 \<and> (view st = Some v \<and> view (step rt e st) = Some v' \<longrightarrow>
       logs v' = logs v \<or> (\<exists>time msg. logs v' = logs v @ [log_line time msg]))"
proof (intro conjI impI)
  assume a: "view st = None \<and> view (step rt e st) = Some v'"
  have "v' = initial_view"
  proof (cases e)
    case Render
    with a render_mounts [of st rt v'] show ?thesis by (auto split: if_splits)
  next
    case (Submit inp b)
    with a show ?thesis by (auto split: if_splits)
  next
    case Timer
    with a show ?thesis by (auto simp: completeNow_def handleComplete_def split: if_splits)
  next
    case Reset
    with a show ?thesis by (auto simp: handleReset_def split: if_splits)
  qed (use a in auto)
  then show "logs v' = [''Pipeline started...'']" by (simp add: initial_view_def)
next
  assume a: "view st = Some v \<and> view (step rt e st) = Some v'"
  show "logs v' = logs v \<or> (\<exists>time msg. logs v' = logs v @ [log_line time msg])"
  proof (cases e)
    case (Submit inp b)
    with a show ?thesis by (auto split: if_splits)
  next
    case (WsOpen t)
    with a show ?thesis by (fastforce simp: onopen_def addLog_def)
  next
    case (WsMessage t p)
    from a have v: "view st = Some v" by simp
    from a WsMessage have "view (onmessage rt t p st) = Some v'" by (auto split: if_splits)
    with onmessage_view [OF v, of rt t p] show ?thesis by (fastforce simp: addLog_def)
  next
    case WsError
    with a show ?thesis by (auto simp: onerror_def handleError_def)
  next
    case Timer
    with a show ?thesis by (auto simp: completeNow_def handleComplete_def split: if_splits)
  next
    case Reset
    with a show ?thesis by (auto simp: handleReset_def split: if_splits)
  next
    case Render
    with a render_keeps [of st v rt v'] show ?thesis by (auto split: if_splits)
  qed
qed

theorem log_append_only_witness:
  "view (handleSubmit ''AI scheduling tool in healthcare'' accepted initial) = None
   \<and> view (step sample_runtime Render
            (handleSubmit ''AI scheduling tool in healthcare'' accepted initial))
       = Some initial_view
   \<and> logs initial_view = [''Pipeline started...'']
   \<and> view (step sample_runtime (WsOpen ''10:00:00'') started)
       = Some (addLog ''10:00:00'' ''Connected to stream'' initial_view)
   \<and> (\<exists>time msg. logs (addLog ''10:00:00'' ''Connected to stream'' initial_view)
                    = logs initial_view @ [log_line time msg])"
proof -
  let ?h = "handleSubmit ''AI scheduling tool in healthcare'' accepted initial"
  have n: "view ?h = None" by (simp add: initial_def)
  have c: "\<not> crashed ?h" by (simp add: initial_def)
  have s: "step sample_runtime Render ?h = started"
    using c by (simp add: started_def submit_def)
  have m: "view (step sample_runtime Render ?h) = Some initial_view"
    by (simp only: s) (simp add: started_eq)
  have o: "view (step sample_runtime (WsOpen ''10:00:00'') started)
             = Some (addLog ''10:00:00'' ''Connected to stream'' initial_view)"
    by (simp add: started_eq onopen_def)
  have d: "logs (addLog ''10:00:00'' ''Connected to stream'' initial_view) \<noteq> logs initial_view"
    by (simp add: addLog_def)
  have v: "view started = Some initial_view" by (simp add: started_eq)
  note w1 = log_append_only [of ?h sample_runtime Render initial_view initial_view,
      THEN conjunct1, THEN mp, OF conjI, OF n m]
  note w2 = log_append_only
    [of started sample_runtime "WsOpen ''10:00:00''"
      "addLog ''10:00:00'' ''Connected to stream'' initial_view" initial_view,
      THEN conjunct2, THEN mp, OF conjI, OF v o]
  from w2 d have x: "\<exists>time msg. logs (addLog ''10:00:00'' ''Connected to stream'' initial_view)
                    = logs initial_view @ [log_line time msg]"
    by blast
  show ?thesis by (intro conjI) (rule n m w1 o x)+
qed

section \<open>Parsing the submitted text\<close>

lemma delimiter_cases: "no_delim s \<or> (\<exists>i. first_delim s i)"
proof (cases "\<exists>i. delim_at s i")
  case True
  then obtain i where i: "delim_at s i" ..
  define L where "L = (LEAST k. delim_at s k)"
  from i have 1: "delim_at s L" unfolding L_def by (rule LeastI)
  have 2: "\<not> delim_at s j" if "j < L" for j
    using that unfolding L_def by (rule not_less_Least)
  have "\<forall>j\<in>set [0..<L]. \<not> delim_at s j"
  proof
    fix j assume "j \<in> set [0..<L]"
    then have "j < L" by simp
    then show "\<not> delim_at s j" by (rule 2)
  qed
  with 1 have "first_delim s L" unfolding first_delim_def by (rule conjI)
  then show ?thesis by blast
next
  case False
  then have "\<forall>j\<in>set [0..<length s]. \<not> delim_at s j" by blast
  then have "no_delim s" unfolding no_delim_def .
  then show ?thesis ..
qed

lemma handleSubmit_requests:
  "trim inp \<noteq> [] \<Longrightarrow>
   take (Suc (length (requests st))) (requests (handleSubmit inp b st))
     = requests st @ [POST_generate_idea (fst (parse_input inp)) (snd (parse_input inp))]"
  by (simp add: handleSubmit_def fetch_def handleError_def handleDirectComplete_def
      handleStartGeneration_def Let_def split: response.splits)

lemma padded_example:
  "parse_input ''  AI scheduling tool  in  healthcare '' = (''AI scheduling tool'', ''healthcare'')"
  by (simp add: parse_input_def js_split_def trim_def is_ws_def Let_def)

text \<open>
  Claim C9, amended.  The submitted text is split on \<open>" in "\<close>.  With the first delimiter
  at position \<open>i\<close>, the idea is the trimmed text before it, and the industry is the
  trimmed text between it and the next delimiter, or the trimmed rest of the text when
  no further delimiter occurs.  Without a delimiter the idea is the trimmed text and the
  industry is \<open>Technology\<close>.  \<open>AI scheduling tool in healthcare\<close> gives the idea
  \<open>AI scheduling tool\<close> and the industry \<open>healthcare\<close>, also when blanks surround the
  parts, and a submission that is not blank first posts the idea and industry so parsed.
\<close>

theorem submission_split_on_in:
  "(first_delim inp i \<and> no_delim (drop (i + 4) inp) \<longrightarrow>
      parse_input inp = (trim (take i inp), trim (drop (i + 4) inp)))
 \<and> (first_delim inp i \<and> first_delim (drop (i + 4) inp) j \<longrightarrow>
      parse_input inp = (trim (take i inp), trim (take j (drop (i + 4) inp))))
 \<and> (no_delim inp \<longrightarrow> parse_input inp = (trim inp, ''Technology''))
 \<and> parse_input ''AI scheduling tool in healthcare'' = (''AI scheduling tool'', ''healthcare'')
 \<and> parse_input ''  AI scheduling tool  in  healthcare ''
     = (''AI scheduling tool'', ''healthcare'')
 \<and> (trim inp \<noteq> [] \<longrightarrow>
      take (Suc (length (requests st))) (requests (submit rt inp b st))
        = requests st @ [POST_generate_idea (fst (parse_input inp)) (snd (parse_input inp))])"
proof (intro conjI impI)
  assume a: "first_delim inp i \<and> no_delim (drop (i + 4) inp)"
  then show "parse_input inp = (trim (take i inp), trim (drop (i + 4) inp))"
    using js_split_first [of inp i] js_split_no_delim [of "drop (i + 4) inp"]
    by (simp add: parse_input_def Let_def)
next
  assume a: "first_delim inp i \<and> first_delim (drop (i + 4) inp) j"
  then show "parse_input inp = (trim (take i inp), trim (take j (drop (i + 4) inp)))"
    using js_split_first [of inp i] js_split_first [of "drop (i + 4) inp" j]
    by (simp add: parse_input_def Let_def)
next
  assume "no_delim inp"
  then show "parse_input inp = (trim inp, ''Technology'')"
    using js_split_no_delim [of inp] by (simp add: parse_input_def Let_def)
next
  show "parse_input ''AI scheduling tool in healthcare'' = (''AI scheduling tool'', ''healthcare'')"
    by (rule parse_example)
next
  show "parse_input ''  AI scheduling tool  in  healthcare ''
          = (''AI scheduling tool'', ''healthcare'')"
    by (rule padded_example)
next
  assume "trim inp \<noteq> []"
  then show "take (Suc (length (requests st))) (requests (submit rt inp b st))
        = requests st @ [POST_generate_idea (fst (parse_input inp)) (snd (parse_input inp))]"
    by (simp add: submit_def handleSubmit_requests)
qed

theorem submission_split_on_in_witness:
  "first_delim ''  AI scheduling tool  in  healthcare '' 21
 \<and> no_delim (drop (21 + 4) ''  AI scheduling tool  in  healthcare '')
 \<and> parse_input ''  AI scheduling tool  in  healthcare ''
     = (trim (take 21 ''  AI scheduling tool  in  healthcare ''),
        trim (drop (21 + 4) ''  AI scheduling tool  in  healthcare ''))
 \<and> trim (take 21 ''  AI scheduling tool  in  healthcare '') = ''AI scheduling tool''
 \<and> trim (drop (21 + 4) ''  AI scheduling tool  in  healthcare '') = ''healthcare''
 \<and> first_delim ''AI in healthcare in Europe'' 2
 \<and> first_delim (drop (2 + 4) ''AI in healthcare in Europe'') 10
 \<and> parse_input ''AI in healthcare in Europe''
     = (trim (take 2 ''AI in healthcare in Europe''),
        trim (take 10 (drop (2 + 4) ''AI in healthcare in Europe'')))
 \<and> trim (take 10 (drop (2 + 4) ''AI in healthcare in Europe'')) = ''healthcare''
 \<and> no_delim ''AI scheduling tool''
 \<and> parse_input ''AI scheduling tool'' = (trim ''AI scheduling tool'', ''Technology'')
 \<and> trim ''AI scheduling tool in healthcare'' \<noteq> []
 \<and> take (Suc (length (requests initial)))
       (requests (submit sample_runtime ''AI scheduling tool in healthcare'' accepted initial))
     = requests initial @ [POST_generate_idea
         (fst (parse_input ''AI scheduling tool in healthcare''))
         (snd (parse_input ''AI scheduling tool in healthcare''))]"
proof -
  have a: "first_delim ''  AI scheduling tool  in  healthcare '' 21
      \<and> no_delim (drop (21 + 4) ''  AI scheduling tool  in  healthcare '')"
    by code_simp
  have b: "first_delim ''AI in healthcare in Europe'' 2
      \<and> first_delim (drop (2 + 4) ''AI in healthcare in Europe'') 10"
    by code_simp
  have c: "no_delim ''AI scheduling tool''"
    by code_simp
  have t1: "trim (take 21 ''  AI scheduling tool  in  healthcare '') = ''AI scheduling tool''"
    by code_simp
  have t2: "trim (drop (21 + 4) ''  AI scheduling tool  in  healthcare '') = ''healthcare''"
    by code_simp
  have t3: "trim (take 10 (drop (2 + 4) ''AI in healthcare in Europe'')) = ''healthcare''"
    by code_simp
  note w1 = submission_split_on_in
    [of "''  AI scheduling tool  in  healthcare ''" 21 0 initial sample_runtime accepted]
  note w2 = submission_split_on_in
    [of "''AI in healthcare in Europe''" 2 10 initial sample_runtime accepted]
  note w3 = submission_split_on_in
    [of "''AI scheduling tool''" 0 0 initial sample_runtime accepted]
  note w4 = submission_split_on_in
    [of "''AI scheduling tool in healthcare''" 0 0 initial sample_runtime accepted]
  note p1 = w1 [THEN conjunct1, THEN mp, OF a]
  note p2 = w2 [THEN conjunct2, THEN conjunct1, THEN mp, OF b]
  note p3 = w3 [THEN conjunct2, THEN conjunct2, THEN conjunct1, THEN mp, OF c]
  note p5 = w4 [THEN conjunct2, THEN conjunct2, THEN conjunct2, THEN conjunct2, THEN conjunct2,
      THEN mp, OF sample_nonblank]
  show ?thesis
    by (intro conjI)
       (rule a [THEN conjunct1] a [THEN conjunct2] p1 t1 t2 b [THEN conjunct1]
          b [THEN conjunct2] p2 t3 c p3 sample_nonblank p5)+
qed

theorem submission_split_on_in_counterexample:
  "first_delim ''AI in healthcare in Europe'' 2
 \<and> trim (drop (2 + 4) ''AI in healthcare in Europe'') = ''healthcare in Europe''
 \<and> parse_input ''AI in healthcare in Europe'' = (''AI'', ''healthcare'')"
  by code_simp

section \<open>Reachable states\<close>

lemma ws_close_closes:
  "\<forall>w\<in>set (butlast (sockets st)). ws_closed w \<Longrightarrow> \<forall>w\<in>set (sockets (ws_close st)). ws_closed w"
  by (auto simp: ws_close_def)

lemma ws_close_shape [simp]:
  "view (ws_close st) = view st" "crashed (ws_close st) = crashed st"
  "rendered (ws_close st) = rendered st" "currentView (ws_close st) = currentView st"
  "taskId (ws_close st) = taskId st" "error (ws_close st) = error st"
  "timers (ws_close st) = timers st"
  by (simp_all add: ws_close_def)

lemma render_well_formed:
  assumes w: "well_formed st" and c: "\<not> crashed st"
  shows "well_formed (render rt st)"
proof -
  from w have b: "\<forall>w\<in>set (butlast (sockets st)). ws_closed w"
    and n: "view st = None \<longrightarrow> (\<forall>w\<in>set (sockets st). ws_closed w)"
    by (simp_all add: well_formed_def)
  note k = ws_close_closes [OF b]
  have s: "shown_progress (x\<lparr>rendered := home_state st\<rparr>) = shows_progress st" for x
    by (simp add: shown_progress_def shows_progress_def home_state_def)
  show ?thesis
  proof (cases "shows_progress st")
    case False
    with n k c show ?thesis
      by (auto simp: render_hidden well_formed_def shown_progress_def shows_progress_def
          home_state_def split: option.splits dest: in_set_butlastD)
  next
    case True
    show ?thesis
    proof (cases "view st")
      case None
      with True n c show ?thesis
        by (simp add: render_appears well_formed_def new_WebSocket_def shown_progress_def
            shows_progress_def home_state_def)
    next
      case (Some v)
      let ?r = "(reconcile rt st)\<lparr>rendered := home_state st\<rparr>"
      have v: "view ?r = Some v" using True Some by (simp add: reconcile_view)
      have cr: "\<not> crashed ?r" using c by simp
      have bl: "\<forall>w\<in>set (butlast (sockets ?r)). ws_closed w"
        using b k Some True by (auto simp: reconcile_def new_WebSocket_def)
      have sh: "shown_progress ?r" using True by (simp add: s)
      show ?thesis
      proof (cases "render_throws v")
        case True
        have "render rt st = unmount_tree ?r"
          using v True by (simp add: render_def Let_def)
        moreover have "well_formed (unmount_tree ?r)"
          using ws_close_closes [OF bl]
          by (auto simp: well_formed_def unmount_tree_def dest: in_set_butlastD)
        ultimately show ?thesis by simp
      next
        case False
        have "render rt st = ?r" using v False by (simp add: render_def Let_def)
        moreover have "well_formed ?r" using v cr bl sh by (simp add: well_formed_def)
        ultimately show ?thesis by simp
      qed
    qed
  qed
qed

lemma handler_well_formed:
  assumes "well_formed st" and "sockets st' = sockets st" and "(view st' = None) = (view st = None)"
    and "crashed st' = crashed st" and "rendered st' = rendered st"
  shows "well_formed st'"
proof -
  from assms(5) have "shown_progress st' = shown_progress st" by (simp add: shown_progress_def)
  with assms(1-4) show ?thesis by (auto simp: well_formed_def split: if_splits)
qed

lemma onmessage_shape:
  "sockets (onmessage rt time payload st) = sockets st"
  "(view (onmessage rt time payload st) = None) = (view st = None)"
  "crashed (onmessage rt time payload st) = crashed st"
  "rendered (onmessage rt time payload st) = rendered st"
  by (auto simp: onmessage_def handleError_def split: option.splits)

lemma step_well_formed:
  assumes w: "well_formed st"
  shows "well_formed (step rt e st)"
proof (cases e)
  case (Submit inp b)
  from w have "well_formed (handleSubmit inp b st)"
    by (rule handler_well_formed) simp_all
  with w Submit show ?thesis by simp
next
  case (WsOpen t)
  from w have "well_formed (onopen t st)"
    by (rule handler_well_formed) (simp_all add: onopen_def)
  with w WsOpen show ?thesis by simp
next
  case (WsMessage t p)
  from w have "well_formed (onmessage rt t p st)"
    by (rule handler_well_formed) (simp_all add: onmessage_shape)
  with w WsMessage show ?thesis by simp
next
  case WsError
  from w have "well_formed (onerror st)"
    by (rule handler_well_formed) (simp_all add: onerror_def handleError_def)
  with w WsError show ?thesis by simp
next
  case Timer
  from w have "well_formed (completeNow st)"
    by (rule handler_well_formed) (simp_all add: completeNow_def handleComplete_def)
  with w Timer show ?thesis by simp
next
  case Reset
  from w have "well_formed (handleReset st)"
    by (rule handler_well_formed) (simp_all add: handleReset_def)
  with w Reset show ?thesis by simp
next
  case Render
  with w show ?thesis by (simp add: render_well_formed)
qed

lemma run_well_formed: "well_formed st \<Longrightarrow> well_formed (run rt es st)"
  by (induction es arbitrary: st) (simp_all add: step_well_formed del: step.simps)

lemma initial_well_formed: "well_formed initial"
  by (simp add: well_formed_def initial_def shown_progress_def)

lemma reachable_well_formed: "well_formed (run rt es initial)"
  by (rule run_well_formed [OF initial_well_formed])

text \<open>
  In a reachable state whose Home state is as rendered, and whose stage can be shown,
  a render changes nothing: React has nothing to do.
\<close>

lemma render_idle:
  assumes "well_formed st" "\<not> crashed st" "home_state st = rendered st"
    "\<forall>v. view st = Some v \<longrightarrow> \<not> render_throws v"
  shows "render rt st = st"
proof -
  from assms(1,2,3) have m: "(view st \<noteq> None) = shows_progress st"
    by (simp add: well_formed_def shown_progress_def shows_progress_def home_state_def
        split: prod.splits)
  show ?thesis
  proof (cases "view st")
    case None
    with m assms(3) show ?thesis by (simp add: render_hidden)
  next
    case (Some v)
    with m assms(3,4) show ?thesis by (simp add: render_stays)
  qed
qed

text \<open>
  Claim C3.  From every state the session can reach, whatever the current view,
  \<open>reset\<close> yields the input view with no task identifier and no error message; no
  ProgressView remains mounted, so no log remains, and every WebSocket ever created is
  closed.
\<close>

theorem reset_returns_to_input:
  assumes "st = run rt es initial"
  shows "currentView (reset rt st) = VInput \<and> taskId (reset rt st) = None
       \<and> error (reset rt st) = None \<and> shown_log (reset rt st) = []
       \<and> view (reset rt st) = None
       \<and> (\<forall>w\<in>set (sockets (reset rt st)). ws_closed w)"
proof -
  from assms have w: "well_formed st" by (simp add: reachable_well_formed)
  then have b: "\<forall>w\<in>set (butlast (sockets (handleReset st))). ws_closed w"
    and n: "view st = None \<longrightarrow> (\<forall>w\<in>set (sockets (handleReset st)). ws_closed w)"
    by (simp_all add: well_formed_def handleReset_def)
  have h: "\<not> shows_progress (handleReset st)"
    by (simp add: shows_progress_def handleReset_def)
  have hv: "view (handleReset st) = view st" by (simp add: handleReset_def)
  have v: "view (reset rt st) = None"
    and k: "\<forall>w\<in>set (sockets (reset rt st)). ws_closed w"
  proof -
    show "view (reset rt st) = None"
      unfolding reset_def render_hidden [OF h] by (cases "view st") (simp_all add: hv)
    show "\<forall>w\<in>set (sockets (reset rt st)). ws_closed w"
    proof (cases "view st")
      case None
      with n show ?thesis unfolding reset_def render_hidden [OF h] by (simp add: hv)
    next
      case (Some u)
      with ws_close_closes [OF b] show ?thesis
        unfolding reset_def render_hidden [OF h] by (simp add: hv)
    qed
  qed
  from v k show ?thesis by (simp add: shown_log_def) (simp add: reset_def handleReset_def)
qed

theorem reset_returns_to_input_witness:
  "started = run sample_runtime
       [Submit ''AI scheduling tool in healthcare'' accepted, Render] initial
 \<and> currentView started = VProgress
 \<and> sockets started = [\<lparr> url = ''ws://localhost:8000/ws/progress/t1'', ws_closed = False \<rparr>]
 \<and> currentView (reset sample_runtime started) = VInput
 \<and> taskId (reset sample_runtime started) = None
 \<and> error (reset sample_runtime started) = None
 \<and> shown_log (reset sample_runtime started) = []
 \<and> sockets (reset sample_runtime started)
     = [\<lparr> url = ''ws://localhost:8000/ws/progress/t1'', ws_closed = True \<rparr>]"
proof -
  note s = started_run [symmetric]
  have h: "\<not> shows_progress (handleReset started)"
    by (simp add: shows_progress_def handleReset_def)
  have k: "sockets (reset sample_runtime started)
     = [\<lparr> url = ''ws://localhost:8000/ws/progress/t1'', ws_closed = True \<rparr>]"
    unfolding reset_def render_hidden [OF h]
    by (simp add: started_eq handleReset_def ws_close_def)
  have c: "currentView started = VProgress"
    and k0: "sockets started
               = [\<lparr> url = ''ws://localhost:8000/ws/progress/t1'', ws_closed = False \<rparr>]"
    by (simp_all add: started_eq)
  from reset_returns_to_input [OF s] c k0 k
  have rest: "currentView started = VProgress
     \<and> sockets started = [\<lparr> url = ''ws://localhost:8000/ws/progress/t1'', ws_closed = False \<rparr>]
     \<and> currentView (reset sample_runtime started) = VInput
     \<and> taskId (reset sample_runtime started) = None
     \<and> error (reset sample_runtime started) = None
     \<and> shown_log (reset sample_runtime started) = []
     \<and> sockets (reset sample_runtime started)
         = [\<lparr> url = ''ws://localhost:8000/ws/progress/t1'', ws_closed = True \<rparr>]"
    by simp
  from s rest show ?thesis by (rule conjI)
qed

section \<open>Outcomes of a submission\<close>

text \<open>
  Claim C4, amended.  A submission that is not blank, made from the input view, ends in
  one of three ways.  When the backend accepts the job and reports a status other than
  \<open>completed\<close>, the view becomes the progress view with the returned task identifier,
  and exactly one WebSocket is opened if that identifier is a non-empty string (none if
  it is empty or missing, since ProgressView is then not rendered).  When the backend
  reports \<open>completed\<close> and the results are fetched, the view becomes the results view
  at once: no ProgressView is mounted and no socket is opened.  In every other case, a
  request having been rejected or answered without success, the view becomes the error
  view with a message, and no socket is opened.
\<close>

theorem submit_outcomes:
  assumes "trim inp \<noteq> []" and "currentView st = VInput" and "view st = None"
  shows "(reports_pending b \<longrightarrow>
            currentView (submit rt inp b st) = VProgress
          \<and> taskId (submit rt inp b st) = returned_task_id b
          \<and> (truthy (js_string (returned_task_id b)) \<longrightarrow>
                view (submit rt inp b st) = Some initial_view
              \<and> sockets (submit rt inp b st)
                  = sockets st @ [\<lparr> url = wsUrl rt (returned_task_id b), ws_closed = False \<rparr>])
          \<and> (\<not> truthy (js_string (returned_task_id b)) \<longrightarrow>
                view (submit rt inp b st) = None \<and> sockets (submit rt inp b st) = sockets st))
       \<and> (reports_completed b \<and> results_fetched b \<longrightarrow>
            currentView (submit rt inp b st) = VResults
          \<and> view (submit rt inp b st) = None
          \<and> sockets (submit rt inp b st) = sockets st)
       \<and> (\<not> reports_pending b \<and> \<not> (reports_completed b \<and> results_fetched b) \<longrightarrow>
            currentView (submit rt inp b st) = VError
          \<and> error (submit rt inp b st) \<noteq> None
          \<and> view (submit rt inp b st) = None
          \<and> sockets (submit rt inp b st) = sockets st)"
proof (intro conjI impI)
  assume p: "reports_pending b"
  then obtain tid stat where g: "generate_idea b = Ok tid" and s: "status b = Ok stat"
    and n: "stat \<noteq> Some ''completed''"
    by (auto simp: reports_pending_def split: response.splits)
  let ?st2 = "fetch (GET_status (to_string (js_string tid)))
               (fetch (POST_generate_idea (fst (parse_input inp)) (snd (parse_input inp))) st)"
  let ?n = "handleStartGeneration tid ?st2"
  have h: "handleSubmit inp b st = ?n"
    using assms(1) g s n by (simp add: handleSubmit_def Let_def)
  have vn: "view ?n = None" using assms(3) by (simp add: handleStartGeneration_def fetch_def)
  have sp: "shows_progress ?n = truthy (js_string tid)"
    by (simp add: shows_progress_def handleStartGeneration_def)
  have t: "returned_task_id b = tid" using g by (simp add: returned_task_id_def)
  have r1: "submit rt inp b st
              = (new_WebSocket rt (?n\<lparr>view := Some initial_view\<rparr>))\<lparr>rendered := home_state ?n\<rparr>"
    if "truthy (js_string tid)"
    unfolding submit_def h using that vn by (simp add: render_appears sp)
  have r2: "submit rt inp b st = ?n\<lparr>rendered := home_state ?n\<rparr>"
    if "\<not> truthy (js_string tid)"
    unfolding submit_def h using that vn by (simp add: render_hidden sp)
  show "currentView (submit rt inp b st) = VProgress"
    by (simp add: submit_def h handleStartGeneration_def)
  show "taskId (submit rt inp b st) = returned_task_id b"
    by (simp add: submit_def h t handleStartGeneration_def)
  show "view (submit rt inp b st) = Some initial_view"
    if "truthy (js_string (returned_task_id b))"
    using that by (simp add: r1 t new_WebSocket_def)
  show "sockets (submit rt inp b st)
          = sockets st @ [\<lparr> url = wsUrl rt (returned_task_id b), ws_closed = False \<rparr>]"
    if "truthy (js_string (returned_task_id b))"
    using that by (simp add: r1 t new_WebSocket_def handleStartGeneration_def fetch_def)
  show "view (submit rt inp b st) = None"
    if "\<not> truthy (js_string (returned_task_id b))"
    using that vn by (simp add: r2 t)
  show "sockets (submit rt inp b st) = sockets st"
    if "\<not> truthy (js_string (returned_task_id b))"
    using that by (simp add: r2 t handleStartGeneration_def fetch_def)
next
  assume c: "reports_completed b \<and> results_fetched b"
  have cv: "currentView (handleSubmit inp b st) = VResults"
    using c assms(1)
    by (auto simp: reports_completed_def results_fetched_def handleSubmit_def Let_def
        handleDirectComplete_def split: response.splits)
  then have "\<not> shows_progress (handleSubmit inp b st)" by (simp add: shows_progress_def)
  then have e: "submit rt inp b st
      = (handleSubmit inp b st)\<lparr>rendered := home_state (handleSubmit inp b st)\<rparr>"
    unfolding submit_def by (simp add: render_hidden assms(3))
  show "currentView (submit rt inp b st) = VResults" by (simp add: e cv)
  show "view (submit rt inp b st) = None" by (simp add: e assms(3))
  show "sockets (submit rt inp b st) = sockets st" by (simp add: e)
next
  assume c: "\<not> reports_pending b \<and> \<not> (reports_completed b \<and> results_fetched b)"
  have cv: "currentView (handleSubmit inp b st) = VError \<and> error (handleSubmit inp b st) \<noteq> None"
    using c assms(1)
    by (auto simp: reports_pending_def reports_completed_def results_fetched_def
        handleSubmit_def Let_def handleError_def split: response.splits)
  then have "\<not> shows_progress (handleSubmit inp b st)" by (simp add: shows_progress_def)
  then have e: "submit rt inp b st
      = (handleSubmit inp b st)\<lparr>rendered := home_state (handleSubmit inp b st)\<rparr>"
    unfolding submit_def by (simp add: render_hidden assms(3))
  show "currentView (submit rt inp b st) = VError" by (simp add: e cv)
  show "error (submit rt inp b st) \<noteq> None" by (simp add: e cv)
  show "view (submit rt inp b st) = None" by (simp add: e assms(3))
  show "sockets (submit rt inp b st) = sockets st" by (simp add: e)
qed

lemma sample_backends:
  "reports_pending accepted" "returned_task_id accepted = Some ''t1''"
  "reports_completed finished" "results_fetched finished"
  "\<not> reports_pending finished_unfetched" "reports_completed finished_unfetched"
  "\<not> results_fetched finished_unfetched"
  "reports_pending accepted_unnamed" "returned_task_id accepted_unnamed = Some []"
  by (simp_all add: reports_pending_def reports_completed_def results_fetched_def
      returned_task_id_def accepted_def finished_def finished_unfetched_def accepted_unnamed_def)

theorem submit_outcomes_witness:
  "trim ''AI scheduling tool in healthcare'' \<noteq> []
 \<and> currentView initial = VInput \<and> view initial = None
 \<and> reports_pending accepted \<and> returned_task_id accepted = Some ''t1''
 \<and> currentView (submit sample_runtime ''AI scheduling tool in healthcare'' accepted initial)
     = VProgress
 \<and> taskId (submit sample_runtime ''AI scheduling tool in healthcare'' accepted initial)
     = Some ''t1''
 \<and> sockets (submit sample_runtime ''AI scheduling tool in healthcare'' accepted initial)
     = [\<lparr> url = ''ws://localhost:8000/ws/progress/t1'', ws_closed = False \<rparr>]
 \<and> reports_completed finished \<and> results_fetched finished
 \<and> currentView (submit sample_runtime ''AI scheduling tool in healthcare'' finished initial)
     = VResults
 \<and> sockets (submit sample_runtime ''AI scheduling tool in healthcare'' finished initial) = []
 \<and> reports_completed finished_unfetched \<and> \<not> results_fetched finished_unfetched
 \<and> currentView
       (submit sample_runtime ''AI scheduling tool in healthcare'' finished_unfetched initial)
     = VError"
proof -
  have i: "currentView initial = VInput" and v: "view initial = None"
    and k: "sockets initial = []"
    by (simp_all add: initial_def)
  have u: "wsUrl sample_runtime (Some ''t1'') = ''ws://localhost:8000/ws/progress/t1''"
    by (simp add: wsUrl_def sample_runtime_def js_string_def)
  have t: "truthy (js_string (Some ''t1''))" by (simp add: js_string_def)
  note w = submit_outcomes [OF sample_nonblank i v]
  from w [of accepted sample_runtime] sample_backends(1,2) t u k
  have a: "currentView (submit sample_runtime ''AI scheduling tool in healthcare'' accepted initial)
             = VProgress
     \<and> taskId (submit sample_runtime ''AI scheduling tool in healthcare'' accepted initial)
         = Some ''t1''
     \<and> sockets (submit sample_runtime ''AI scheduling tool in healthcare'' accepted initial)
         = [\<lparr> url = ''ws://localhost:8000/ws/progress/t1'', ws_closed = False \<rparr>]"
    by simp
  from w [of finished sample_runtime] sample_backends(3,4) k
  have b: "currentView (submit sample_runtime ''AI scheduling tool in healthcare'' finished initial)
             = VResults
     \<and> sockets (submit sample_runtime ''AI scheduling tool in healthcare'' finished initial) = []"
    by simp
  from w [of finished_unfetched sample_runtime] sample_backends(5,7)
  have c: "currentView
       (submit sample_runtime ''AI scheduling tool in healthcare'' finished_unfetched initial)
     = VError"
    by simp
  from sample_nonblank i v sample_backends(1,2) a sample_backends(3,4) b sample_backends(6,7) c
  show ?thesis by (intro conjI) (erule conjunct1 conjunct2 | assumption | simp only:)+
qed

lemma submit_unfetched:
  "submit sample_runtime ''AI scheduling tool in healthcare'' finished_unfetched initial
     = \<lparr> currentView = VError, taskId = None, error = Some ''Failed to fetch results'',
         rendered = (VError, None, Some ''Failed to fetch results''), crashed = False,
         view = None, sockets = [], timers = 0, console = [],
         requests = [POST_generate_idea ''AI scheduling tool'' ''healthcare'',
                     GET_status ''t1'', GET_results ''t1''] \<rparr>"
  by (simp add: submit_def handleSubmit_def sample_nonblank parse_example finished_unfetched_def
      fetch_def handleError_def initial_def js_string_def render_hidden home_state_def
      shows_progress_def Let_def)

lemma submit_unnamed:
  "submit sample_runtime ''AI scheduling tool in healthcare'' accepted_unnamed initial
     = \<lparr> currentView = VProgress, taskId = Some [], error = None,
         rendered = (VProgress, Some [], None), crashed = False,
         view = None, sockets = [], timers = 0, console = [],
         requests = [POST_generate_idea ''AI scheduling tool'' ''healthcare'',
                     GET_status []] \<rparr>"
  by (simp add: submit_def handleSubmit_def sample_nonblank parse_example accepted_unnamed_def
      fetch_def handleStartGeneration_def initial_def js_string_def render_hidden home_state_def
      shows_progress_def Let_def)

theorem submit_outcomes_counterexample:
  "reports_completed finished_unfetched
 \<and> currentView
       (submit sample_runtime ''AI scheduling tool in healthcare'' finished_unfetched initial)
     = VError
 \<and> error (submit sample_runtime ''AI scheduling tool in healthcare'' finished_unfetched initial)
     = Some ''Failed to fetch results''
 \<and> reports_pending accepted_unnamed
 \<and> currentView
       (submit sample_runtime ''AI scheduling tool in healthcare'' accepted_unnamed initial)
     = VProgress
 \<and> sockets (submit sample_runtime ''AI scheduling tool in healthcare'' accepted_unnamed initial)
     = []"
  by (simp add: submit_unfetched submit_unnamed sample_backends)

section \<open>Terminal frames\<close>

lemma run_append: "run rt (xs @ ys) st = run rt ys (run rt xs st)"
  by (induction xs arbitrary: st) simp_all


lemma render_safe:
  assumes "case view st of None \<Rightarrow> True | Some v \<Rightarrow> \<not> render_throws v"
  shows "crashed (render rt st) = crashed st"
    and "case view (render rt st) of None \<Rightarrow> True | Some v \<Rightarrow> \<not> render_throws v"
    and "shows_progress st \<Longrightarrow> view st = Some v \<Longrightarrow> view (render rt st) = Some v"
  using assms
  by (auto simp: render_def Let_def reconcile_view reconcile_def unmount_tree_def ws_close_def
      new_WebSocket_def initial_view_renders split: option.splits if_splits)

lemma benign_frame_view:
  assumes "benign rt (WsMessage time payload)"
    and "case view st of None \<Rightarrow> True | Some v \<Rightarrow> \<not> render_throws v"
  shows "case view (onmessage rt time payload st) of None \<Rightarrow> True
         | Some v \<Rightarrow> \<not> render_throws v"
  using assms
  by (auto simp: onmessage_def throws_iff addLog_def or_str_def split: option.splits if_splits)

lemma benign_frame_home:
  assumes "benign rt (WsMessage time payload)"
  shows "currentView (onmessage rt time payload st) = currentView st"
    and "crashed (onmessage rt time payload st) = crashed st"
    and "timers st \<le> timers (onmessage rt time payload st)"
    and "taskId (onmessage rt time payload st) = taskId st"
    and "(view (onmessage rt time payload st) = None) = (view st = None)"
    and "rendered (onmessage rt time payload st) = rendered st"
  using assms by (auto simp: onmessage_def split: option.splits)












lemma benign_on_screen:
  assumes "benign rt e" and "on_screen st"
  shows "on_screen (step rt e st)"
proof -
  from assms(2) obtain v where v: "view st = Some v" and nt: "\<not> render_throws v"
    and sp: "shows_progress st" and nc: "\<not> crashed st" and cv: "currentView st = VProgress"
    by (auto simp: on_screen_def in_progress_def split: option.splits)
  have ok: "case view st of None \<Rightarrow> True | Some v \<Rightarrow> \<not> render_throws v"
    using v nt by simp
  show ?thesis
  proof (cases e)
    case (WsMessage t p)
    with assms(1) have b: "benign rt (WsMessage t p)" by simp
    note h = benign_frame_home [OF b, of st] and w = benign_frame_view [OF b ok]
    from h(5) v obtain v' where v': "view (onmessage rt t p st) = Some v'" by auto
    with w have "\<not> render_throws v'" by simp
    with v' h v sp nc cv WsMessage show ?thesis
      by (simp add: on_screen_def in_progress_def shows_progress_def)
  next
    case Render
    from render_safe(1) [OF ok, of rt] render_safe(3) [OF ok sp v, of rt] Render v nt sp nc cv
    show ?thesis by (simp add: on_screen_def in_progress_def shows_progress_def)
  next
    case (WsOpen t)
    with v nt sp nc cv show ?thesis
      by (simp add: on_screen_def in_progress_def shows_progress_def onopen_def throws_iff
          addLog_def)
  qed (use assms(1) in simp_all)
qed









section \<open>Progress events\<close>

lemma or_num_Some: "or_num (Some x) 0 = x"
  by (simp add: or_num_def)

lemma Math_round_examples:
  "Math_round 45 = 45" "Math_round (91 / 2) = 46" "Math_round (227 / 5) = 45"
  "Math_round (- 5 / 2) = - 2" "Math_round (- 13 / 5) = - 3"
  by (simp_all add: Math_round_def)

lemma progress_step:
  assumes "view st = Some v" "JSON_parse rt payload = Some d"
    "data_type d = Some ''progress'' \<or> data_type d = Some ''status''"
  shows "step rt (WsMessage time payload) st =
           st\<lparr>view := Some (addLog time (progress_line rt d)
                   (v\<lparr>progress := or_num (data_progress d) 0,
                      stage := or_str (data_stage d) ''unknown'',
                      message := or_str (data_message d) ''Processing...''\<rparr>))\<rparr>"
  using assms by (auto simp: onmessage_def)

lemma sample_lines:
  "progress_line sample_runtime update_status = ''Ideation: 10%''"
  "progress_line sample_runtime update_progress = ''Pitch Writing: 45%''"
  "progress_line sample_runtime update_half = ''Ideation: 46%''"
  "progress_line sample_runtime update_proto = ''[object Object]: 45%''"
  by (simp_all add: progress_line_def update_status_def update_progress_def update_half_def
      update_proto_def stage_label_def get_STAGE_LABELS_def property_key_def STAGE_LABELS_def
      Object_prototype_def or_num_def Math_round_def sample_runtime_def decimal_def)

text \<open>
  Frames of kind \<open>progress\<close> or \<open>status\<close>, each followed by a render, none of them
  carrying the stage \<open>__proto__\<close>: the progress view stays on the screen, its \<open>progress\<close>
  is the value of the latest frame (the width of the bar; the text beside it prints
  \<open>Math.round\<close> of that number), and its log is the log before followed by one line for
  each frame, in the order of arrival.
\<close>

lemma progress_frames_rendered:
  assumes "on_screen st" and "view st = Some v"
    and "\<forall>f\<in>set fs. progress_frame rt f \<and> data_stage (snd (snd f)) \<noteq> Some ''__proto__''"
  shows "\<exists>v'. view (run rt (rendered_frame_events fs) st) = Some v'
           \<and> on_screen (run rt (rendered_frame_events fs) st)
           \<and> logs v' = logs v @ frame_lines rt fs
           \<and> (\<forall>x. fs \<noteq> [] \<and> data_progress (snd (snd (last fs))) = Some x \<longrightarrow>
                  progress v' = x
                \<and> percent_text rt v' = Number_toString rt (Math_round x) @ ''%'')"
  using assms(3)
proof (induction fs rule: rev_induct)
  case Nil
  with assms(1,2) show ?case by (simp add: rendered_frame_events_def frame_lines_def)
next
  case (snoc f fs)
  let ?s1 = "run rt (rendered_frame_events fs) st"
  from snoc obtain v1 where v1: "view ?s1 = Some v1" and o1: "on_screen ?s1"
    and l1: "logs v1 = logs v @ frame_lines rt fs" by auto
  obtain t p d where f: "f = (t, p, d)" by (cases f) auto
  from snoc.prems f have pd: "JSON_parse rt p = Some d"
    and ty: "data_type d = Some ''progress'' \<or> data_type d = Some ''status''"
    and ns: "data_stage d \<noteq> Some ''__proto__''"
    by (simp_all add: progress_frame_def)
  let ?s2 = "step rt (WsMessage t p) ?s1"
  let ?v2 = "addLog t (progress_line rt d)
               (v1\<lparr>progress := or_num (data_progress d) 0,
                   stage := or_str (data_stage d) ''unknown'',
                   message := or_str (data_message d) ''Processing...''\<rparr>)"
  have b: "benign rt (WsMessage t p)" using pd ty ns by auto
  have s2: "?s2 = ?s1\<lparr>view := Some ?v2\<rparr>" by (rule progress_step [OF v1 pd ty])
  have v2: "view ?s2 = Some ?v2" by (simp only: s2) simp
  have o2: "on_screen ?s2" using b o1 by (rule benign_on_screen)
  then have ok: "case view ?s2 of None \<Rightarrow> True | Some v \<Rightarrow> \<not> render_throws v"
    and sp: "shows_progress ?s2" and nc: "\<not> crashed ?s2"
    by (auto simp: on_screen_def in_progress_def split: option.splits)
  let ?s3 = "step rt Render ?s2"
  have v3: "view ?s3 = Some ?v2"
    using nc render_safe(3) [OF ok sp v2, of rt] by simp
  have o3: "on_screen ?s3" using o2 by (simp add: benign_on_screen del: step.simps)
  have r: "run rt (rendered_frame_events (fs @ [f])) st = ?s3"
    by (simp add: rendered_frame_events_def run_append f del: step.simps)
  show ?case
    using v3 o3
    by (simp only: r) (simp add: addLog_def l1 frame_lines_def f or_num_Some percent_text_def)
qed

text \<open>
  Claim C5.  Two frames of kind \<open>status\<close> and \<open>progress\<close> are shown as the claim says:
  the latest progress value, and one log line for each.  A \<open>progress\<close> frame with the
  stage \<open>__proto__\<close> is not: the handler stores the value and appends its line, and the
  render that should display them reads \<open>STAGE_LABELS['__proto__']\<close>, which is
  \<open>Object.prototype\<close> and no valid child, so React throws and unmounts the tree.
  Neither a percentage nor a log is displayed after that frame.
\<close>

theorem progress_frame_proto_crashes:
  "view (run sample_runtime
        (rendered_frame_events [(''10:00:01'', frame_status, update_status),
                                (''10:00:02'', frame_half, update_half)]) started)
     = Some \<lparr> progress = 91 / 2, stage = ''ideation'', message = ''Half'',
              logs = [''Pipeline started...'', ''[10:00:01] Ideation: 10%'',
                      ''[10:00:02] Ideation: 46%''] \<rparr>
 \<and> percent_text sample_runtime
       \<lparr> progress = 91 / 2, stage = ''ideation'', message = ''Half'', logs = [] \<rparr> = ''46%''
 \<and> JSON_parse sample_runtime frame_proto = Some update_proto
 \<and> data_type update_proto = Some ''progress''
 \<and> data_progress update_proto = Some 45
 \<and> view (run sample_runtime
        (frame_events [(''10:00:03'', frame_proto, update_proto)]) started)
     = Some \<lparr> progress = 45, stage = ''__proto__'', message = ''x'',
              logs = [''Pipeline started...'', ''[10:00:03] [object Object]: 45%''] \<rparr>
 \<and> stage_label (Some ''__proto__'') = Inherited ''__proto__''
 \<and> crashed (run sample_runtime
        (rendered_frame_events [(''10:00:03'', frame_proto, update_proto)]) started)
 \<and> view (run sample_runtime
        (rendered_frame_events [(''10:00:03'', frame_proto, update_proto)]) started) = None
 \<and> shown_log (run sample_runtime
        (rendered_frame_events [(''10:00:03'', frame_proto, update_proto)]) started) = []
 \<and> sockets (run sample_runtime
        (rendered_frame_events [(''10:00:03'', frame_proto, update_proto)]) started)
     = [\<lparr> url = ''ws://localhost:8000/ws/progress/t1'', ws_closed = True \<rparr>]"
proof -
  have l: "stage_label (Some ''__proto__'') = Inherited ''__proto__''"
    by (simp add: stage_label_def get_STAGE_LABELS_def property_key_def STAGE_LABELS_def
        Object_prototype_def)
  have p: "percent_text sample_runtime
       \<lparr> progress = 91 / 2, stage = ''ideation'', message = ''Half'', logs = [] \<rparr> = ''46%''"
    by (simp add: percent_text_def Math_round_def sample_runtime_def decimal_def)
  show ?thesis
    by (simp add: l p rendered_frame_events_def frame_events_def shown_log_def
        sample_lines [unfolded update_status_def update_half_def update_proto_def
          update_progress_def]
        log_line_def started_eq sample_parse onmessage_def render_def reconcile_def
        unmount_tree_def throws_iff home_state_def shows_progress_def ws_close_def js_string_def
        addLog_def initial_view_def or_str_def or_num_def update_status_def update_half_def
        update_proto_def Let_def)
qed

section \<open>Stage labels\<close>

lemma label_nonempty: "map_of STAGE_LABELS k = Some l \<Longrightarrow> l \<noteq> []"
  by (auto simp: STAGE_LABELS_def split: if_splits)

lemma stage_label_mapped: "map_of STAGE_LABELS k = Some l \<Longrightarrow> stage_label (Some k) = Str l"
  by (frule label_nonempty) (simp add: stage_label_def get_STAGE_LABELS_def property_key_def)

lemma inherited_not_mapped_all: "\<forall>k\<in>set Object_prototype. map_of STAGE_LABELS k = None"
  by code_simp

lemma inherited_not_mapped: "k \<in> set Object_prototype \<Longrightarrow> map_of STAGE_LABELS k = None"
  using inherited_not_mapped_all by blast

lemma stage_label_inherited: "k \<in> set Object_prototype \<Longrightarrow> stage_label (Some k) = Inherited k"
  by (frule inherited_not_mapped) (simp add: stage_label_def get_STAGE_LABELS_def property_key_def)

lemma stage_label_unknown:
  "map_of STAGE_LABELS k = None \<Longrightarrow> k \<notin> set Object_prototype \<Longrightarrow> stage_label (Some k) = Str k"
  by (simp add: stage_label_def get_STAGE_LABELS_def property_key_def js_string_def)

text \<open>
  Claim C8.  A key of the static mapping shows its label (\<open>stage_label_mapped\<close>) and an
  unknown key shows itself (\<open>stage_label_unknown\<close>), unless the key names a member that
  \<open>STAGE_LABELS\<close> inherits from \<open>Object.prototype\<close> (\<open>stage_label_inherited\<close>).  At the
  key \<open>constructor\<close>, which the mapping does not hold, the lookup yields the inherited
  function instead of the key, and the log line of a \<open>progress\<close> frame with that stage
  prints the function.
\<close>

theorem stage_label_constructor:
  "map_of STAGE_LABELS ''constructor'' = None
 \<and> stage_label (Some ''constructor'') = Inherited ''constructor''
 \<and> stage_label (Some ''constructor'') \<noteq> Str ''constructor''
 \<and> to_string (stage_label (Some ''constructor'')) = ''function Object() { [native code] }''
 \<and> progress_line sample_runtime
       \<lparr> data_type = Some ''progress'', data_stage = Some ''constructor'',
         data_progress = Some 0, data_message = None \<rparr>
     = ''function Object() { [native code] }: 0%''"
  by (simp add: stage_label_def get_STAGE_LABELS_def property_key_def STAGE_LABELS_def
      Object_prototype_def native_name_def progress_line_def or_num_def Math_round_def
      sample_runtime_def decimal_def)

end
